theory Spec2Isabelle
  imports Complex_Main
begin

section \<open>The Euler integrator of \<open>session_02/Python_Intro/2_odes.ipynb\<close>\<close>

text \<open>
  Numbers. The notebook computes with Python floats; the embedding computes with the
  reals, so the rounding of sums and products is outside the model. The one rounding
  that decides a count, that of the quotient \<open>t_end / Dt\<close>, is modelled in
  \<open>solve_ode_euler_float\<close> below; \<open>solve_ode_euler\<close> is the solver in exact arithmetic.

  Exceptions. A Python exception is a value of \<open>exn\<close>; a computation that may raise
  returns \<open>exn + 'a\<close>, with \<open>Inl\<close> for the exception.
\<close>

datatype exn = ZeroDivisionError | ValueError | IndexError | OverflowError | Other string

text \<open>
  The derivative function is supplied by the caller and may raise:
  \<open>dydt(y, t)\<close> is a value of \<open>exn + real\<close>.
\<close>

type_synonym deriv = "real \<Rightarrow> real \<Rightarrow> exn + real"

text \<open>
  \<^verbatim>\<open>
  def exp_decay_dt(y, t, k=1):
      return -k * y

  def exp_decay(y0, t, k=1):
      return y0 * np.exp(-k * t)
  \<close>
  In both, the keyword parameter \<open>k\<close> is the first argument here: the solver calls
  \<open>dydt(y, t)\<close>, so the function it receives is \<open>exp_decay_dt 1\<close>, with the default,
  and \<open>exp_decay(y0=y0, t=t_values)\<close> is \<open>exp_decay 1 y0\<close> on every time.
\<close>

definition exp_decay_dt :: "real \<Rightarrow> real \<Rightarrow> real \<Rightarrow> exn + real" where
  "exp_decay_dt k y t = Inr (- k * y)"

definition exp_decay :: "real \<Rightarrow> real \<Rightarrow> real \<Rightarrow> real" where
  "exp_decay k y0 t = y0 * exp (- k * t)"

subsection \<open>What the solver uses of Python and numpy\<close>

text \<open>\<open>int(x)\<close> on a float truncates towards zero.\<close>

definition py_int :: "real \<Rightarrow> int" where
  "py_int x = (if 0 \<le> x then \<lfloor>x\<rfloor> else \<lceil>x\<rceil>)"

text \<open>
  \<open>np.linspace(start, stop, num)\<close> (endpoint included): a negative \<open>num\<close> raises
  ValueError; otherwise the samples are \<open>arange(num) * step + start\<close> with
  \<open>step = (stop - start) / (num - 1)\<close> when \<open>num - 1 > 0\<close> (and
  \<open>arange(num) * (stop - start) + start\<close> when not), and for \<open>num > 1\<close> the last
  sample is then overwritten with \<open>stop\<close>.
\<close>

definition linspace :: "real \<Rightarrow> real \<Rightarrow> int \<Rightarrow> exn + real list" where
  "linspace start stop num =
     (if num < 0 then Inl ValueError
      else
        let n = nat num;
            dv = n - 1;
            delta = stop - start;
            y = (if 0 < dv then map (\<lambda>i. real i * (delta / real dv) + start) [0..<n]
                 else map (\<lambda>i. real i * delta + start) [0..<n])
        in Inr (if 1 < n then y[n - 1 := stop] else y))"

text \<open>\<open>np.zeros(n)\<close>: a negative \<open>n\<close> raises ValueError.\<close>

definition zeros :: "int \<Rightarrow> exn + real list" where
  "zeros n = (if n < 0 then Inl ValueError else Inr (replicate (nat n) 0))"

subsection \<open>The solver\<close>

text \<open>
  \<^verbatim>\<open>
  def solve_ode_euler(dydt, y0, Dt=0.1, t_end=10):
      n_steps = int(t_end / Dt)
      t_values = np.linspace(0, t_end, n_steps + 1)
      y_values = np.zeros(n_steps + 1)
      y_values[0] = y0
      for i in range(n_steps):
          y_values[i+1] = y_values[i] + dydt(y_values[i], t_values[i]) * Dt
      return t_values, y_values
  \<close>
  The loop is \<open>euler_loop\<close>, over the indices \<open>range(n_steps)\<close>. Its state is the array
  \<open>y_values\<close> and, for the statements about derivative evaluations, the log \<open>calls\<close>
  of the arguments \<open>(y, t)\<close> of every call of \<open>dydt\<close> made so far. An index out of
  range raises IndexError, as numpy does; an exception of \<open>dydt\<close> leaves the loop as it is.
\<close>

fun euler_loop ::
  "deriv \<Rightarrow> real \<Rightarrow> real list \<Rightarrow> nat list \<Rightarrow> (real \<times> real) list \<Rightarrow> real list
     \<Rightarrow> (real \<times> real) list \<times> (exn + real list)" where
  "euler_loop dydt Dt t_values [] calls y_values = (calls, Inr y_values)"
| "euler_loop dydt Dt t_values (i # rest) calls y_values =
     (if i < length y_values \<and> i < length t_values then
        (case dydt (y_values ! i) (t_values ! i) of
           Inl e \<Rightarrow> (calls @ [(y_values ! i, t_values ! i)], Inl e)
         | Inr d \<Rightarrow>
             if Suc i < length y_values then
               euler_loop dydt Dt t_values rest (calls @ [(y_values ! i, t_values ! i)])
                 (y_values[Suc i := y_values ! i + d * Dt])
             else (calls @ [(y_values ! i, t_values ! i)], Inl IndexError))
      else (calls, Inl IndexError))"

text \<open>
  The result of a run: the log of derivative evaluations, and either the exception
  raised or the pair \<open>(t_values, y_values)\<close> returned. \<open>t_end / Dt\<close> raises
  ZeroDivisionError for \<open>Dt = 0\<close>.
\<close>

definition solve_ode_euler ::
  "deriv \<Rightarrow> real \<Rightarrow> real \<Rightarrow> real
     \<Rightarrow> (real \<times> real) list \<times> (exn + real list \<times> real list)" where
  "solve_ode_euler dydt y0 Dt t_end =
     (if Dt = 0 then ([], Inl ZeroDivisionError)
      else
        let n_steps = py_int (t_end / Dt) in
        case linspace 0 t_end (n_steps + 1) of
          Inl e \<Rightarrow> ([], Inl e)
        | Inr t_values \<Rightarrow>
            (case zeros (n_steps + 1) of
               Inl e \<Rightarrow> ([], Inl e)
             | Inr y_values \<Rightarrow>
                 if length y_values = 0 then ([], Inl IndexError)
                 else
                   (case euler_loop dydt Dt t_values [0..<nat n_steps] []
                           (y_values[0 := y0]) of
                      (calls, Inl e) \<Rightarrow> (calls, Inl e)
                    | (calls, Inr ys) \<Rightarrow> (calls, Inr (t_values, ys)))))"

subsection \<open>The solver with the float quotient and any initial value\<close>

text \<open>
  Two things of the Python function are not in \<open>solve_ode_euler\<close>.

  The quotient. \<open>t_end / Dt\<close> is a float division, and \<open>int\<close> truncates its rounded
  result: \<open>0.3 / 0.1\<close> is \<open>2.9999999999999996\<close>, two steps and not three, and
  \<open>10 / 0.1\<close> is \<open>100.0\<close> although the double nearest to 0.1 is above 0.1. A float
  is a finite number, an infinity (the quotient overflows) or NaN; \<open>int\<close> raises
  OverflowError on an infinity and ValueError on NaN.
\<close>

datatype pyfloat = Finite real | PosInf | NegInf | NaN

fun py_int_float :: "pyfloat \<Rightarrow> exn + int" where
  "py_int_float (Finite x) = Inr (py_int x)"
| "py_int_float PosInf = Inl OverflowError"
| "py_int_float NegInf = Inl OverflowError"
| "py_int_float NaN = Inl ValueError"

text \<open>
  The initial value. Python passes whatever the caller gives: a number, or a sequence
  of numbers (the empty one among them). \<open>y_values[0] = y0\<close> raises IndexError when
  the array is empty, and ValueError (setting an array element with a sequence) when
  \<open>y0\<close> is a sequence.
\<close>

datatype pyval = Scalar real | Sequence "real list"

text \<open>
  \<open>solve_ode_euler_float\<close> is the body of \<open>solve_ode_euler\<close> again, line by line, with
  the float division of the interpreter as the parameter \<open>fdiv\<close> and the initial value
  as a \<open>pyval\<close>. The times and states are computed exactly, as before.
\<close>

definition solve_ode_euler_float ::
  "(real \<Rightarrow> real \<Rightarrow> pyfloat) \<Rightarrow> deriv \<Rightarrow> pyval \<Rightarrow> real \<Rightarrow> real
     \<Rightarrow> (real \<times> real) list \<times> (exn + real list \<times> real list)" where
  "solve_ode_euler_float fdiv dydt y0 Dt t_end =
     (if Dt = 0 then ([], Inl ZeroDivisionError)
      else
        case py_int_float (fdiv t_end Dt) of
          Inl e \<Rightarrow> ([], Inl e)
        | Inr n_steps \<Rightarrow>
            (case linspace 0 t_end (n_steps + 1) of
               Inl e \<Rightarrow> ([], Inl e)
             | Inr t_values \<Rightarrow>
                 (case zeros (n_steps + 1) of
                    Inl e \<Rightarrow> ([], Inl e)
                  | Inr y_values \<Rightarrow>
                      if length y_values = 0 then ([], Inl IndexError)
                      else
                        (case y0 of
                           Sequence xs \<Rightarrow> ([], Inl ValueError)
                         | Scalar v \<Rightarrow>
                             (case euler_loop dydt Dt t_values [0..<nat n_steps] []
                                     (y_values[0 := v]) of
                                (calls, Inl e) \<Rightarrow> (calls, Inl e)
                              | (calls, Inr ys) \<Rightarrow> (calls, Inr (t_values, ys)))))))"

text \<open>
  What the statements below assume of the float division: rounding to nearest is
  monotone and \<open>-1\<close>, \<open>0\<close> and \<open>1\<close> are floats, so a finite quotient is on the same
  side of each of them as the exact quotient.
\<close>

definition rounds_quotient :: "(real \<Rightarrow> real \<Rightarrow> pyfloat) \<Rightarrow> bool" where
  "rounds_quotient fdiv \<longleftrightarrow>
     (\<forall>x y q. y \<noteq> 0 \<longrightarrow> fdiv x y = Finite q \<longrightarrow>
        (x / y \<le> - 1 \<longrightarrow> q \<le> - 1) \<and> (0 \<le> x / y \<longrightarrow> 0 \<le> q) \<and> (1 \<le> x / y \<longrightarrow> 1 \<le> q))"

subsection \<open>The plotting harness\<close>

text \<open>
  \<^verbatim>\<open>
  def solve_and_plot(Dt):
      y0 = 10
      t_values, y_values = solve_ode_euler(dydt=exp_decay_dt, y0=y0, Dt=Dt, t_end=10)
      y_true = exp_decay(y0=y0, t=t_values)
      plt.plot(t_values, y_values, marker='o')
      plt.plot(t_values, y_true)

  interact(solve_and_plot, Dt=(0.0, 2.0, 0.1));
  \<close>
  \<open>solve_and_plot\<close> returns the exception raised, or the two series handed to
  \<open>plt.plot\<close>, in order.
\<close>

definition solve_and_plot :: "real \<Rightarrow> exn + (real list \<times> real list) list" where
  "solve_and_plot Dt =
     (let y0 = 10 in
      case snd (solve_ode_euler (exp_decay_dt 1) y0 Dt 10) of
        Inl e \<Rightarrow> Inl e
      | Inr (t_values, y_values) \<Rightarrow>
          let y_true = map (exp_decay 1 y0) t_values
          in Inr [(t_values, y_values), (t_values, y_true)])"

text \<open>
  The descriptor of a slider, as \<open>interact\<close> takes it: \<open>(minimum, maximum, step)\<close>.
  \<open>Dt_descriptor\<close> is the one of the call above.
\<close>

record descriptor =
  minimum :: real
  maximum :: real
  step :: real

definition Dt_descriptor :: descriptor where
  "Dt_descriptor = \<lparr>minimum = 0, maximum = 2, step = 1 / 10\<rparr>"

text \<open>
  Modelled from the spec: the slider binding of the Harness, which is the
  \<open>interact\<close> of the ipywidgets library and not code of the repository. A value
  outside the declared \<open>[minimum, maximum]\<close> is clamped silently to the nearest bound,
  and the bound function runs with the clamped value.
\<close>

definition clamp :: "descriptor \<Rightarrow> real \<Rightarrow> real" where
  "clamp d v = min (max v (minimum d)) (maximum d)"

definition interact :: "(real \<Rightarrow> 'a) \<Rightarrow> descriptor \<Rightarrow> real \<Rightarrow> 'a" where
  "interact f d v = f (clamp d v)"

section \<open>Properties\<close>

subsection \<open>Python and numpy\<close>

lemma py_int_nonneg: "0 \<le> x \<Longrightarrow> py_int x = \<lfloor>x\<rfloor>"
  by (simp add: py_int_def)

lemma py_int_valid:
  assumes "0 < Dt" "0 \<le> t_end"
  shows "py_int (t_end / Dt) = int (nat \<lfloor>t_end / Dt\<rfloor>)"
proof -
  have "0 \<le> t_end / Dt" using assms by simp
  then show ?thesis by (simp add: py_int_def)
qed

lemma linspace_one: "linspace a b 1 = Inr [a]"
  by (simp add: linspace_def Let_def)

lemma linspace_length: "0 \<le> num \<Longrightarrow> \<exists>ts. linspace a b num = Inr ts \<and> length ts = nat num"
  by (simp add: linspace_def Let_def)

lemma linspace_nth:
  assumes "2 \<le> num" "linspace a b num = Inr ts" "i < nat num"
  shows "ts ! i = a + real i * ((b - a) / real (nat num - 1))"
proof -
  let ?n = "nat num"
  have n: "1 < ?n" "0 < ?n - 1" using assms(1) by auto
  let ?y = "map (\<lambda>i. real i * ((b - a) / real (?n - 1)) + a) [0..<?n]"
  have ts: "ts = ?y[?n - 1 := b]"
    using assms(1,2) n by (simp add: linspace_def Let_def)
  show ?thesis
  proof (cases "i = ?n - 1")
    case True
    have "real (?n - 1) * ((b - a) / real (?n - 1)) = b - a" using n by simp
    then show ?thesis using ts True n by simp
  next
    case False
    then show ?thesis using ts assms(3) by (simp add: add.commute)
  qed
qed

subsection \<open>The loop\<close>

text \<open>
  With a derivative that never raises, the loop over \<open>[i..<n]\<close> on arrays of length
  \<open>n + 1\<close> returns; it leaves the entries up to \<open>i\<close> alone, every later entry is the
  Euler step from the one before, and the log grows by one call per index.
\<close>

lemma euler_loop_total:
  assumes tot: "\<forall>y t. \<exists>d. dydt y t = Inr d"
  shows "length ys = Suc n \<Longrightarrow> length ts = Suc n \<Longrightarrow> i \<le> n \<Longrightarrow>
    \<exists>ys'. euler_loop dydt Dt ts [i..<n] cs ys
            = (cs @ map (\<lambda>j. (ys' ! j, ts ! j)) [i..<n], Inr ys')
      \<and> length ys' = Suc n
      \<and> (\<forall>j\<le>i. ys' ! j = ys ! j)
      \<and> (\<forall>j. i \<le> j \<and> j < n \<longrightarrow>
            (\<exists>d. dydt (ys' ! j) (ts ! j) = Inr d \<and> ys' ! Suc j = ys' ! j + d * Dt))"
proof (induction "n - i" arbitrary: i cs ys)
  case 0
  then have "i = n" by simp
  then show ?case using 0 by auto
next
  case (Suc k)
  then have lt: "i < n" by simp
  obtain d where d: "dydt (ys ! i) (ts ! i) = Inr d" using tot by blast
  let ?ys1 = "ys[Suc i := ys ! i + d * Dt]"
  let ?cs1 = "cs @ [(ys ! i, ts ! i)]"
  have k: "k = n - Suc i" using Suc.hyps(2) by simp
  have l1: "length ?ys1 = Suc n" using Suc.prems by simp
  from Suc.hyps(1)[OF k l1 Suc.prems(2), of ?cs1] lt
  obtain ys' where
    run: "euler_loop dydt Dt ts [Suc i..<n] ?cs1 ?ys1
            = (?cs1 @ map (\<lambda>j. (ys' ! j, ts ! j)) [Suc i..<n], Inr ys')"
    and len: "length ys' = Suc n"
    and keep: "\<forall>j\<le>Suc i. ys' ! j = ?ys1 ! j"
    and rec: "\<forall>j. Suc i \<le> j \<and> j < n \<longrightarrow>
            (\<exists>d. dydt (ys' ! j) (ts ! j) = Inr d \<and> ys' ! Suc j = ys' ! j + d * Dt)"
    by auto
  have yi: "ys' ! i = ys ! i" using keep by simp
  have ysi: "ys' ! Suc i = ys ! i + d * Dt" using keep Suc.prems(1) lt by simp
  have upt: "[i..<n] = i # [Suc i..<n]" using lt by (simp add: upt_conv_Cons)
  have step: "euler_loop dydt Dt ts [i..<n] cs ys
                = euler_loop dydt Dt ts [Suc i..<n] ?cs1 ?ys1"
    using Suc.prems lt d by (simp add: upt)
  have a: "euler_loop dydt Dt ts [i..<n] cs ys
            = (cs @ map (\<lambda>j. (ys' ! j, ts ! j)) [i..<n], Inr ys')"
    using step run yi by (simp add: upt)
  have b: "\<forall>j\<le>i. ys' ! j = ys ! j" using keep by simp
  have c: "\<forall>j. i \<le> j \<and> j < n \<longrightarrow>
            (\<exists>d. dydt (ys' ! j) (ts ! j) = Inr d \<and> ys' ! Suc j = ys' ! j + d * Dt)"
  proof (intro allI impI)
    fix j assume j: "i \<le> j \<and> j < n"
    show "\<exists>d. dydt (ys' ! j) (ts ! j) = Inr d \<and> ys' ! Suc j = ys' ! j + d * Dt"
    proof (cases "j = i")
      case True
      then show ?thesis using d yi ysi by simp
    next
      case False
      then have "Suc i \<le> j \<and> j < n" using j by simp
      then show ?thesis using rec by blast
    qed
  qed
  show ?case using a len b c by blast
qed

text \<open>
  Whatever the derivative does: if a logged call is one at which the derivative raises
  \<open>e\<close>, then the loop ended there with \<open>e\<close>, and the log only ever grows.
\<close>

lemma euler_loop_raise:
  assumes "\<forall>c\<in>set cs. \<forall>e. dydt (fst c) (snd c) \<noteq> Inl e"
    and "euler_loop dydt Dt ts idx cs ys = (cs', out)"
    and "(y, t) \<in> set cs'" and "dydt y t = Inl e"
  shows "out = Inl e \<and> last cs' = (y, t)"
  using assms
proof (induction idx arbitrary: cs ys)
  case Nil
  then show ?case by auto
next
  case (Cons i rest)
  show ?case
  proof (cases "i < length ys \<and> i < length ts")
    case False
    then have "cs' = cs" using Cons.prems(2) by auto
    then show ?thesis using Cons.prems by auto
  next
    case inb: True
    show ?thesis
    proof (cases "dydt (ys ! i) (ts ! i)")
      case (Inl e0)
      then have r: "cs' = cs @ [(ys ! i, ts ! i)]" "out = Inl e0"
        using Cons.prems(2) inb by auto
      have "(y, t) \<notin> set cs" using Cons.prems(1,4) by auto
      then have "(y, t) = (ys ! i, ts ! i)" using Cons.prems(3) r(1) by auto
      then show ?thesis using r Inl Cons.prems(4) by auto
    next
      case (Inr d)
      let ?cs1 = "cs @ [(ys ! i, ts ! i)]"
      have inv: "\<forall>c\<in>set ?cs1. \<forall>e. dydt (fst c) (snd c) \<noteq> Inl e"
        using Cons.prems(1) Inr by auto
      show ?thesis
      proof (cases "Suc i < length ys")
        case True
        then have "euler_loop dydt Dt ts rest ?cs1 (ys[Suc i := ys ! i + d * Dt]) = (cs', out)"
          using Cons.prems(2) inb Inr by simp
        from Cons.IH[OF inv this Cons.prems(3,4)] show ?thesis .
      next
        case False
        then have "cs' = ?cs1" using Cons.prems(2) inb Inr by auto
        then show ?thesis using inv Cons.prems(3,4) by auto
      qed
    qed
  qed
qed

lemma euler_loop_log_grows:
  "\<exists>more. fst (euler_loop dydt Dt ts idx cs ys) = cs @ more"
proof (induction idx arbitrary: cs ys)
  case Nil
  show ?case by simp
next
  case (Cons i rest)
  obtain more where
    "fst (euler_loop dydt Dt ts rest (cs @ [(ys ! i, ts ! i)])
           (ys[Suc i := ys ! i + (projr (dydt (ys ! i) (ts ! i))) * Dt]))
       = (cs @ [(ys ! i, ts ! i)]) @ more"
    using Cons.IH by blast
  then show ?case by (auto split: sum.splits)
qed

subsection \<open>A run of the solver\<close>

text \<open>
  When \<open>int(t_end / Dt)\<close> is a natural number \<open>n\<close> and the derivative never raises,
  the solver returns \<open>n + 1\<close> times (those of \<open>linspace\<close>) and \<open>n + 1\<close> states, the
  first one \<open>y0\<close> and each next one the Euler step with \<open>Dt\<close>, after \<open>n\<close> derivative
  evaluations.
\<close>

lemma solve_ode_euler_steps:
  assumes Dt: "Dt \<noteq> 0" and m: "py_int (t_end / Dt) = int n"
    and tot: "\<forall>y t. \<exists>d. dydt y t = Inr d"
  shows "\<exists>ts ys. solve_ode_euler dydt y0 Dt t_end
            = (map (\<lambda>j. (ys ! j, ts ! j)) [0..<n], Inr (ts, ys))
      \<and> linspace 0 t_end (int n + 1) = Inr ts
      \<and> length ts = Suc n
      \<and> length ys = Suc n
      \<and> ys ! 0 = y0
      \<and> (\<forall>j<n. \<exists>d. dydt (ys ! j) (ts ! j) = Inr d \<and> ys ! Suc j = ys ! j + d * Dt)"
proof -
  obtain ts where ts: "linspace 0 t_end (int n + 1) = Inr ts"
    and lts: "length ts = nat (int n + 1)"
    using linspace_length[of "int n + 1" 0 t_end] by auto
  have lts': "length ts = Suc n" using lts by (simp add: nat_add_distrib)
  let ?y = "y0 # replicate n 0"
  have z: "zeros (int n + 1) = Inr (replicate (Suc n) 0)"
    by (simp add: zeros_def nat_add_distrib)
  have ly: "length ?y = Suc n" by simp
  from euler_loop_total[of dydt ?y n ts 0 Dt "[]", OF tot ly lts']
  obtain ys where
    run: "euler_loop dydt Dt ts [0..<n] [] ?y = (map (\<lambda>j. (ys ! j, ts ! j)) [0..<n], Inr ys)"
    and len: "length ys = Suc n"
    and keep: "\<forall>j\<le>0. ys ! j = ?y ! j"
    and rec: "\<forall>j. 0 \<le> j \<and> j < n \<longrightarrow>
            (\<exists>d. dydt (ys ! j) (ts ! j) = Inr d \<and> ys ! Suc j = ys ! j + d * Dt)"
    by auto
  have y0: "ys ! 0 = y0" using keep by simp
  have res: "solve_ode_euler dydt y0 Dt t_end
            = (map (\<lambda>j. (ys ! j, ts ! j)) [0..<n], Inr (ts, ys))"
    unfolding solve_ode_euler_def using Dt by (simp add: m ts z run)
  show ?thesis using res ts lts' len y0 rec by blast
qed

text \<open>
  The same for the solver with the float quotient: the count \<open>n\<close> is \<open>int\<close> of the
  quotient that \<open>fdiv\<close> returns. The solver in exact arithmetic is its instance at the
  exact quotient and a number as initial value, and the exact quotient is one that
  \<open>rounds_quotient\<close> admits.
\<close>

lemma solve_ode_euler_float_steps:
  assumes Dt: "Dt \<noteq> 0" and q: "fdiv t_end Dt = Finite q" and m: "py_int q = int n"
    and tot: "\<forall>y t. \<exists>d. dydt y t = Inr d"
  shows "\<exists>ts ys. solve_ode_euler_float fdiv dydt (Scalar y0) Dt t_end
            = (map (\<lambda>j. (ys ! j, ts ! j)) [0..<n], Inr (ts, ys))
      \<and> linspace 0 t_end (int n + 1) = Inr ts
      \<and> length ts = Suc n
      \<and> length ys = Suc n
      \<and> ys ! 0 = y0
      \<and> (\<forall>j<n. \<exists>d. dydt (ys ! j) (ts ! j) = Inr d \<and> ys ! Suc j = ys ! j + d * Dt)"
proof -
  obtain ts where ts: "linspace 0 t_end (int n + 1) = Inr ts"
    and lts: "length ts = nat (int n + 1)"
    using linspace_length[of "int n + 1" 0 t_end] by auto
  have lts': "length ts = Suc n" using lts by (simp add: nat_add_distrib)
  let ?y = "y0 # replicate n 0"
  have z: "zeros (int n + 1) = Inr (replicate (Suc n) 0)"
    by (simp add: zeros_def nat_add_distrib)
  have ly: "length ?y = Suc n" by simp
  from euler_loop_total[of dydt ?y n ts 0 Dt "[]", OF tot ly lts']
  obtain ys where
    run: "euler_loop dydt Dt ts [0..<n] [] ?y = (map (\<lambda>j. (ys ! j, ts ! j)) [0..<n], Inr ys)"
    and len: "length ys = Suc n"
    and keep: "\<forall>j\<le>0. ys ! j = ?y ! j"
    and rec: "\<forall>j. 0 \<le> j \<and> j < n \<longrightarrow>
            (\<exists>d. dydt (ys ! j) (ts ! j) = Inr d \<and> ys ! Suc j = ys ! j + d * Dt)"
    by auto
  have y0: "ys ! 0 = y0" using keep by simp
  have res: "solve_ode_euler_float fdiv dydt (Scalar y0) Dt t_end
            = (map (\<lambda>j. (ys ! j, ts ! j)) [0..<n], Inr (ts, ys))"
    unfolding solve_ode_euler_float_def using Dt by (simp add: q m ts z run)
  show ?thesis using res ts lts' len y0 rec by blast
qed

lemma solve_ode_euler_exact_instance:
  "solve_ode_euler dydt y0 Dt t_end
     = solve_ode_euler_float (\<lambda>x y. Finite (x / y)) dydt (Scalar y0) Dt t_end"
  by (simp add: solve_ode_euler_def solve_ode_euler_float_def Let_def split: sum.splits)

lemma rounds_quotient_exact: "rounds_quotient (\<lambda>x y. Finite (x / y))"
  by (simp add: rounds_quotient_def)

text \<open>For \<open>n \<ge> 1\<close> steps the times are the multiples of \<open>t_end / n\<close>.\<close>

lemma linspace_grid:
  assumes n: "0 < n" and ts: "linspace 0 t_end (int n + 1) = Inr ts" and i: "i \<le> n"
  shows "ts ! i = real i * (t_end / real n)"
proof -
  have a: "2 \<le> int n + 1" using n by simp
  have b: "i < nat (int n + 1)" using i by simp
  have "ts ! i = 0 + real i * ((t_end - 0) / real (nat (int n + 1) - 1))"
    using a ts b by (rule linspace_nth)
  moreover have "nat (int n + 1) - 1 = n" by simp
  ultimately show ?thesis by simp
qed

text \<open>
  With the exponential-decay derivative the states are a geometric sequence of ratio
  \<open>1 - k * Dt\<close>.
\<close>

lemma exp_decay_closed_form:
  assumes Dt: "Dt \<noteq> 0" and m: "py_int (t_end / Dt) = int n"
  shows "\<exists>ts ys. snd (solve_ode_euler (exp_decay_dt k) y0 Dt t_end) = Inr (ts, ys)
           \<and> length ts = Suc n \<and> length ys = Suc n
           \<and> (\<forall>j\<le>n. ys ! j = y0 * (1 - k * Dt) ^ j)"
proof -
  have tot: "\<forall>y t. \<exists>d. exp_decay_dt k y t = Inr d" by (simp add: exp_decay_dt_def)
  from solve_ode_euler_steps[OF Dt m tot, where ?y0.0 = y0]
  obtain ts ys where
    run: "snd (solve_ode_euler (exp_decay_dt k) y0 Dt t_end) = Inr (ts, ys)"
    and lts: "length ts = Suc n" and lys: "length ys = Suc n"
    and first: "ys ! 0 = y0"
    and rec: "\<forall>j<n. \<exists>d. exp_decay_dt k (ys ! j) (ts ! j) = Inr d
                 \<and> ys ! Suc j = ys ! j + d * Dt"
    by auto
  have step: "j < n \<Longrightarrow> ys ! Suc j = ys ! j * (1 - k * Dt)" for j
    using rec by (auto simp: exp_decay_dt_def algebra_simps)
  have "j \<le> n \<Longrightarrow> ys ! j = y0 * (1 - k * Dt) ^ j" for j
  proof (induction j)
    case 0
    show ?case using first by simp
  next
    case (Suc j)
    then show ?case using step[of j] by simp
  qed
  then show ?thesis using run lts lys by blast
qed

subsection \<open>Euler's bounds on the exponential\<close>

text \<open>\<open>(1 - 1/n)^n \<le> exp (-1) \<le> (1 - 1/n)^(n-1)\<close>, from \<open>1 + x \<le> exp x\<close>.\<close>

lemma euler_power_upper:
  assumes "0 < n"
  shows "(1 - 1 / real n) ^ n \<le> exp (- 1)"
proof -
  have nn: "0 \<le> 1 - 1 / real n" using assms by simp
  have "1 + (- (1 / real n)) \<le> exp (- (1 / real n))" by (rule exp_ge_add_one_self)
  then have "1 - 1 / real n \<le> exp (- (1 / real n))" by simp
  then have "(1 - 1 / real n) ^ n \<le> exp (- (1 / real n)) ^ n"
    using nn by (rule power_mono)
  also have "\<dots> = exp (real n * (- (1 / real n)))" by (rule exp_of_nat_mult[symmetric])
  also have "real n * (- (1 / real n)) = - 1" using assms by simp
  finally show ?thesis .
qed

lemma euler_power_lower:
  assumes "1 < n"
  shows "(1 - 1 / real n) * exp (- 1) \<le> (1 - 1 / real n) ^ n"
proof -
  define m where "m = n - 1"
  have m: "0 < m" "n = Suc m" using assms by (simp_all add: m_def)
  define q where "q = 1 - 1 / real n"
  have q: "0 < q" using assms by (simp add: q_def)
  have qm: "1 + 1 / real m = 1 / q"
    using m(1) by (simp add: q_def m(2) field_simps)
  have "1 + 1 / real m \<le> exp (1 / real m)" by (rule exp_ge_add_one_self)
  moreover have "0 \<le> 1 + 1 / real m" by simp
  ultimately have "(1 + 1 / real m) ^ m \<le> exp (1 / real m) ^ m" by (rule power_mono)
  also have "\<dots> = exp (real m * (1 / real m))" by (rule exp_of_nat_mult[symmetric])
  also have "real m * (1 / real m) = 1" using m(1) by simp
  finally have "(1 / q) ^ m \<le> exp 1" using qm by simp
  then have "1 / q ^ m \<le> exp 1" by (simp add: power_one_over)
  then have "1 \<le> exp 1 * q ^ m" using q by (simp add: field_simps)
  then have "exp (- 1) \<le> q ^ m"
    by (simp add: exp_minus field_simps)
  then have "q * exp (- 1) \<le> q * q ^ m" using q by simp
  also have "q * q ^ m = q ^ n" unfolding m(2) by simp
  finally show ?thesis unfolding q_def .
qed

subsection \<open>The harness on the \<open>Dt\<close> slider\<close>

text \<open>
  A value above the maximum runs as \<open>Dt = 2\<close> does. The harness raises exactly for
  the values \<open>v \<le> 0\<close>, all of them clamped to the minimum \<open>0\<close>.
\<close>

lemma harness_above_maximum:
  "clamp Dt_descriptor 5 = 2
   \<and> interact solve_and_plot Dt_descriptor 5 = solve_and_plot 2
   \<and> (\<exists>y_true. solve_and_plot 2
         = Inr [([0, 2, 4, 6, 8, 10], [10, - 10, 10, - 10, 10, - 10]),
                ([0, 2, 4, 6, 8, 10], y_true)])"
proof -
  have c: "clamp Dt_descriptor 5 = 2" by (simp add: clamp_def Dt_descriptor_def)
  have run: "solve_ode_euler (exp_decay_dt 1) 10 2 10
     = ([(10, 0), (- 10, 2), (10, 4), (- 10, 6), (10, 8)],
        Inr ([0, 2, 4, 6, 8, 10], [10, - 10, 10, - 10, 10, - 10]))"
    by code_simp
  show ?thesis by (simp add: c interact_def solve_and_plot_def run)
qed

lemma harness_fails_iff:
  "(\<exists>e. interact solve_and_plot Dt_descriptor v = Inl e) \<longleftrightarrow> v \<le> 0"
proof (cases "v \<le> 0")
  case True
  then have "clamp Dt_descriptor v = 0" by (simp add: clamp_def Dt_descriptor_def)
  then show ?thesis using True
    by (simp add: interact_def solve_and_plot_def solve_ode_euler_def)
next
  case False
  define Dt where "Dt = clamp Dt_descriptor v"
  have Dt: "0 < Dt" using False by (simp add: Dt_def clamp_def Dt_descriptor_def)
  have tot: "\<forall>y t. \<exists>d. exp_decay_dt 1 y t = Inr d" by (simp add: exp_decay_dt_def)
  have t: "(0::real) \<le> 10" by simp
  have Dt0: "Dt \<noteq> 0" using Dt by simp
  from solve_ode_euler_steps[OF Dt0 py_int_valid[OF Dt t] tot, where ?y0.0 = 10]
  obtain ts ys where "snd (solve_ode_euler (exp_decay_dt 1) 10 Dt 10) = Inr (ts, ys)"
    by auto
  then have "\<forall>e. solve_and_plot Dt \<noteq> Inl e" by (simp add: solve_and_plot_def)
  then show ?thesis using False by (simp add: interact_def Dt_def)
qed

subsection \<open>Claims\<close>

text \<open>
  C3. For every derivative function (one that does not raise; C6 is about the others),
  every initial state, every step size \<open>Dt > 0\<close> and every horizon \<open>t_end \<ge> 0\<close>, the
  solver returns a trajectory, and it has exactly \<open>floor(t_end / Dt) + 1\<close> times and as
  many states, where \<open>t_end / Dt\<close> is the quotient \<open>q\<close> as the float division gives it
  (finite: the quotient does not overflow). The instance after it is at \<open>Dt\<close> the double nearest
  to 0.1 and \<open>t_end = 10\<close>, where the float quotient is 100 and the floor of the exact
  one is 99: 101 samples.
\<close>

theorem trajectory_length:
  assumes "rounds_quotient fdiv" and "0 < Dt" and "0 \<le> t_end"
    and "fdiv t_end Dt = Finite q" and "\<forall>y t. \<exists>d. dydt y t = Inr d"
  shows "\<exists>ts ys. snd (solve_ode_euler_float fdiv dydt (Scalar y0) Dt t_end) = Inr (ts, ys)
           \<and> int (length ts) = \<lfloor>q\<rfloor> + 1
           \<and> int (length ys) = \<lfloor>q\<rfloor> + 1"
proof -
  have Dt: "Dt \<noteq> 0" using assms(2) by simp
  have "0 \<le> t_end / Dt" using assms(2,3) by simp
  then have q0: "0 \<le> q" using assms(1,4) Dt unfolding rounds_quotient_def by blast
  define n where "n = nat \<lfloor>q\<rfloor>"
  have m: "py_int q = int n" using q0 by (simp add: py_int_def n_def)
  have fl: "\<lfloor>q\<rfloor> = int n" using q0 by (simp add: n_def)
  from solve_ode_euler_float_steps[where fdiv = fdiv and t_end = t_end and Dt = Dt
      and ?y0.0 = y0, OF Dt assms(4) m assms(5)]
  obtain ts ys where
    "snd (solve_ode_euler_float fdiv dydt (Scalar y0) Dt t_end) = Inr (ts, ys)"
    "length ts = Suc n" "length ys = Suc n"
    by auto
  then show ?thesis unfolding fl by (intro exI[of _ ts] exI[of _ ys]) simp
qed

theorem trajectory_length_witness:
  "rounds_quotient (\<lambda>x y. Finite (if x = 10 \<and> y = 3602879701896397 / 36028797018963968
                                    then 100 else x / y))
   \<and> (0::real) < 3602879701896397 / 36028797018963968 \<and> (0::real) \<le> 10
   \<and> (\<lambda>x y. Finite (if x = 10 \<and> y = 3602879701896397 / 36028797018963968
                       then 100 else x / y)) 10 (3602879701896397 / 36028797018963968)
        = Finite 100
   \<and> (\<forall>y t. \<exists>d. exp_decay_dt 1 y t = Inr d)
   \<and> (\<exists>ts ys. snd (solve_ode_euler_float
                     (\<lambda>x y. Finite (if x = 10 \<and> y = 3602879701896397 / 36028797018963968
                                      then 100 else x / y))
                     (exp_decay_dt 1) (Scalar 10) (3602879701896397 / 36028797018963968) 10)
                 = Inr (ts, ys)
          \<and> int (length ts) = 101 \<and> int (length ys) = 101)
   \<and> \<lfloor>(10::real) / (3602879701896397 / 36028797018963968)\<rfloor> = 99"
proof -
  let ?d = "3602879701896397 / 36028797018963968 :: real"
  let ?F = "\<lambda>x y. Finite (if x = 10 \<and> y = ?d then 100 else x / y)"
  have r: "rounds_quotient ?F"
    unfolding rounds_quotient_def
  proof (intro allI impI)
    fix x y q :: real
    assume "y \<noteq> 0" and F: "?F x y = Finite q"
    show "(x / y \<le> - 1 \<longrightarrow> q \<le> - 1) \<and> (0 \<le> x / y \<longrightarrow> 0 \<le> q) \<and> (1 \<le> x / y \<longrightarrow> 1 \<le> q)"
    proof (cases "x = 10 \<and> y = ?d")
      case True
      then have xy: "x = 10" "y = ?d" by blast+
      have "q = 100" using F unfolding xy by simp
      moreover have "0 < x / y" unfolding xy by simp
      ultimately show ?thesis by auto
    next
      case False
      then have "q = x / y" using F by auto
      then show ?thesis by simp
    qed
  qed
  have h: "\<forall>y t. \<exists>d. exp_decay_dt 1 y t = Inr d" by (simp add: exp_decay_dt_def)
  have d: "0 < ?d" by simp
  have t: "(0::real) \<le> 10" by simp
  have f: "?F 10 ?d = Finite 100" by simp
  have e: "\<lfloor>(10::real) / ?d\<rfloor> = 99" by simp
  from trajectory_length[OF r d t f h, of 10] r d t f h e
  show ?thesis by simp
qed

text \<open>
  C10. For every derivative function, every initial state \<open>y0\<close>, every step size
  \<open>Dt > 0\<close> and every horizon with \<open>0 \<le> t_end < Dt\<close>, the solver returns the
  trajectory of the one sample \<open>(0, y0)\<close>, and the log of derivative evaluations is
  empty.
\<close>

theorem horizon_below_step:
  assumes "0 < Dt" and "0 \<le> t_end" and "t_end < Dt"
  shows "solve_ode_euler dydt y0 Dt t_end = ([], Inr ([0], [y0]))"
proof -
  have q: "0 \<le> t_end / Dt" "t_end / Dt < 1" using assms by simp_all
  then have "\<lfloor>t_end / Dt\<rfloor> = 0" by linarith
  then have pi: "py_int (t_end / Dt) = 0" using q by (simp add: py_int_def)
  show ?thesis
    unfolding solve_ode_euler_def using assms(1)
    by (simp add: pi linspace_one zeros_def)
qed

theorem horizon_below_step_witness:
  "(0::real) < 2 \<and> (0::real) \<le> 1 \<and> (1::real) < 2
   \<and> solve_ode_euler (\<lambda>y t. Inl (Other ''boom'')) 10 2 1 = ([], Inr ([0], [10]))"
  using horizon_below_step[of 2 1 "\<lambda>y t. Inl (Other ''boom'')" 10] by simp


text \<open>
  C5. For every initial state, step size \<open>Dt > 0\<close> and horizon \<open>t_end \<ge> 0\<close>: when the
  derivative function returns zero at every argument, the solver returns a trajectory
  and every state in it equals the initial state.
\<close>

theorem zero_derivative_constant:
  assumes "0 < Dt" and "0 \<le> t_end" and "\<forall>y t. dydt y t = Inr 0"
  shows "\<exists>ts ys. snd (solve_ode_euler dydt y0 Dt t_end) = Inr (ts, ys)
           \<and> length ys = length ts \<and> ys \<noteq> [] \<and> (\<forall>y\<in>set ys. y = y0)"
proof -
  let ?n = "nat \<lfloor>t_end / Dt\<rfloor>"
  have Dt: "Dt \<noteq> 0" using assms(1) by simp
  have tot: "\<forall>y t. \<exists>d. dydt y t = Inr d" using assms(3) by simp
  from solve_ode_euler_steps[OF Dt py_int_valid[OF assms(1,2)] tot, where ?y0.0 = y0]
  obtain ts ys where
    run: "snd (solve_ode_euler dydt y0 Dt t_end) = Inr (ts, ys)"
    and lts: "length ts = Suc ?n" and lys: "length ys = Suc ?n"
    and first: "ys ! 0 = y0"
    and rec: "\<forall>j<?n. \<exists>d. dydt (ys ! j) (ts ! j) = Inr d \<and> ys ! Suc j = ys ! j + d * Dt"
    by auto
  have same: "j < ?n \<Longrightarrow> ys ! Suc j = ys ! j" for j
    using rec assms(3) by auto
  have all: "j \<le> ?n \<Longrightarrow> ys ! j = y0" for j
  proof (induction j)
    case 0
    show ?case by (rule first)
  next
    case (Suc j)
    then show ?case using same[of j] by simp
  qed
  have "\<forall>y\<in>set ys. y = y0"
  proof
    fix y assume "y \<in> set ys"
    then obtain j where "j < length ys" "ys ! j = y" by (auto simp: in_set_conv_nth)
    then show "y = y0" using all[of j] lys by simp
  qed
  moreover have "ys \<noteq> []" using lys by auto
  ultimately show ?thesis using run lts lys by auto
qed

theorem zero_derivative_constant_witness:
  "(0::real) < 1 \<and> (0::real) \<le> 2 \<and> (\<forall>y t. (\<lambda>y t. Inr 0 :: exn + real) y t = Inr 0)
   \<and> (\<exists>ts ys. snd (solve_ode_euler (\<lambda>y t. Inr 0) 7 1 2) = Inr (ts, ys)
          \<and> length ys = length ts \<and> ys \<noteq> [] \<and> (\<forall>y\<in>set ys. y = 7))"
  using zero_derivative_constant[of 1 2 "\<lambda>y t. Inr 0" 7] by simp

text \<open>
  C9. For every step size \<open>Dt > 0\<close> and every horizon \<open>t_end \<ge> Dt\<close> (and a derivative
  that does not raise), the last time returned is \<open>t_end\<close> exactly, consecutive times
  differ by \<open>t_end / floor(t_end / Dt)\<close>, the horizon divided by the step count, where
  \<open>t_end / Dt\<close> under the floor is the quotient \<open>q\<close> as the float division gives it; and
  this spacing is the requested \<open>Dt\<close> only when \<open>t_end\<close> is an integer multiple of
  \<open>Dt\<close>. The instance after it is at \<open>Dt\<close> the double nearest to 0.1 and \<open>t_end = 1\<close>, where
  the float quotient is 10 and the floor of the exact one is 9: 11 times, spaced by 1/10.
\<close>

theorem time_grid_spans_horizon:
  assumes "rounds_quotient fdiv" and "0 < Dt" and "Dt \<le> t_end"
    and "fdiv t_end Dt = Finite q" and "\<forall>y t. \<exists>d. dydt y t = Inr d"
  shows "\<exists>ts ys. snd (solve_ode_euler_float fdiv dydt (Scalar y0) Dt t_end) = Inr (ts, ys)
           \<and> int (length ts) = \<lfloor>q\<rfloor> + 1
           \<and> last ts = t_end
           \<and> (\<forall>i. Suc i < length ts \<longrightarrow> ts ! Suc i - ts ! i = t_end / real_of_int \<lfloor>q\<rfloor>)
           \<and> (t_end / real_of_int \<lfloor>q\<rfloor> = Dt \<longrightarrow> (\<exists>k::int. t_end = real_of_int k * Dt))"
proof -
  have Dt: "Dt \<noteq> 0" using assms(2) by simp
  have "1 \<le> t_end / Dt" using assms(2,3) by simp
  then have q1: "1 \<le> q" using assms(1,4) Dt unfolding rounds_quotient_def by blast
  define n where "n = nat \<lfloor>q\<rfloor>"
  have m1: "1 \<le> \<lfloor>q\<rfloor>" using q1 by linarith
  have fl: "\<lfloor>q\<rfloor> = int n" using m1 by (simp add: n_def)
  have n1: "0 < n" using m1 by (simp add: n_def)
  have m: "py_int q = int n" using q1 fl by (simp add: py_int_def)
  from solve_ode_euler_float_steps[where fdiv = fdiv and t_end = t_end and Dt = Dt
      and ?y0.0 = y0, OF Dt assms(4) m assms(5)]
  obtain ts ys where
    run: "snd (solve_ode_euler_float fdiv dydt (Scalar y0) Dt t_end) = Inr (ts, ys)"
    and lin: "linspace 0 t_end (int n + 1) = Inr ts"
    and lts: "length ts = Suc n"
    by auto
  have grid: "i \<le> n \<Longrightarrow> ts ! i = real i * (t_end / real n)" for i
    using linspace_grid[OF n1 lin] .
  have cancel: "0 < k \<Longrightarrow> real k * (t_end / real k) = t_end" for k :: nat
    by simp
  have len: "int (length ts) = int n + 1" using lts by simp
  have "ts \<noteq> []" using lts by auto
  then have "last ts = ts ! n" using lts by (simp add: last_conv_nth)
  also have "\<dots> = real n * (t_end / real n)" using grid[of n] by simp
  also have "\<dots> = t_end" using cancel[OF n1] .
  finally have lst: "last ts = t_end" .
  have diff: "\<forall>i. Suc i < length ts \<longrightarrow> ts ! Suc i - ts ! i = t_end / real_of_int (int n)"
  proof (intro allI impI)
    fix i assume "Suc i < length ts"
    then have i: "Suc i \<le> n" "i \<le> n" using lts by simp_all
    have "ts ! Suc i - ts ! i = real (Suc i) * (t_end / real n) - real i * (t_end / real n)"
      using grid[OF i(1)] grid[OF i(2)] by simp
    also have "\<dots> = t_end / real n" by (simp add: algebra_simps add_divide_distrib)
    finally show "ts ! Suc i - ts ! i = t_end / real_of_int (int n)" by simp
  qed
  have only: "t_end / real_of_int (int n) = Dt \<longrightarrow> (\<exists>k::int. t_end = real_of_int k * Dt)"
  proof
    assume "t_end / real_of_int (int n) = Dt"
    then have "t_end = real_of_int (int n) * Dt" using n1 by (simp add: field_simps)
    then show "\<exists>k::int. t_end = real_of_int k * Dt" ..
  qed
  show ?thesis unfolding fl using run len lst diff only by blast
qed

theorem time_grid_spans_horizon_witness:
  "rounds_quotient (\<lambda>x y. Finite (if x = 1 \<and> y = 3602879701896397 / 36028797018963968
                                    then 10 else x / y))
   \<and> (0::real) < 3602879701896397 / 36028797018963968
   \<and> (3602879701896397 / 36028797018963968 :: real) \<le> 1
   \<and> (\<lambda>x y. Finite (if x = 1 \<and> y = 3602879701896397 / 36028797018963968
                       then 10 else x / y)) 1 (3602879701896397 / 36028797018963968)
        = Finite 10
   \<and> (\<forall>y t. \<exists>d. exp_decay_dt 1 y t = Inr d)
   \<and> (\<exists>ts ys. snd (solve_ode_euler_float
                     (\<lambda>x y. Finite (if x = 1 \<and> y = 3602879701896397 / 36028797018963968
                                      then 10 else x / y))
                     (exp_decay_dt 1) (Scalar 10) (3602879701896397 / 36028797018963968) 1)
                 = Inr (ts, ys)
          \<and> int (length ts) = 11
          \<and> last ts = 1
          \<and> (\<forall>i. Suc i < length ts \<longrightarrow> ts ! Suc i - ts ! i = 1 / 10))
   \<and> \<lfloor>(1::real) / (3602879701896397 / 36028797018963968)\<rfloor> = 9"
proof -
  let ?d = "3602879701896397 / 36028797018963968 :: real"
  let ?F = "\<lambda>x y. Finite (if x = 1 \<and> y = ?d then 10 else x / y)"
  have r: "rounds_quotient ?F"
    unfolding rounds_quotient_def
  proof (intro allI impI)
    fix x y q :: real
    assume "y \<noteq> 0" and F: "?F x y = Finite q"
    show "(x / y \<le> - 1 \<longrightarrow> q \<le> - 1) \<and> (0 \<le> x / y \<longrightarrow> 0 \<le> q) \<and> (1 \<le> x / y \<longrightarrow> 1 \<le> q)"
    proof (cases "x = 1 \<and> y = ?d")
      case True
      then have xy: "x = 1" "y = ?d" by blast+
      have "q = 10" using F unfolding xy by simp
      moreover have "0 < x / y" unfolding xy by simp
      ultimately show ?thesis by auto
    next
      case False
      then have "q = x / y" using F by auto
      then show ?thesis by simp
    qed
  qed
  have h: "\<forall>y t. \<exists>d. exp_decay_dt 1 y t = Inr d" by (simp add: exp_decay_dt_def)
  have d: "0 < ?d" by simp
  have t: "?d \<le> 1" by simp
  have f: "?F 1 ?d = Finite 10" by simp
  have e: "\<lfloor>(1::real) / ?d\<rfloor> = 9" by simp
  from time_grid_spans_horizon[OF r d t f h, of 10] r d t f h e
  show ?thesis by simp
qed

text \<open>
  C7. With the exponential-decay derivative (\<open>k = 1\<close>), \<open>y0 = 10\<close>, step \<open>0.001\<close> and
  horizon \<open>1\<close> the solver returns 1001 states, and the last one is within 1 percent,
  relatively, of the exact solution \<open>exp_decay\<close> at time 1, which is \<open>10 * exp (-1)\<close>.
\<close>

theorem exp_decay_within_one_percent:
  "\<exists>ts ys. snd (solve_ode_euler (exp_decay_dt 1) 10 (1 / 1000) 1) = Inr (ts, ys)
     \<and> length ys = 1001
     \<and> \<bar>last ys - exp_decay 1 10 1\<bar> \<le> (1 / 100) * \<bar>exp_decay 1 10 1\<bar>
     \<and> exp_decay 1 10 1 = 10 * exp (- 1)"
proof -
  define n :: nat where "n = 1000"
  have rn: "real n = 1000" by (simp add: n_def)
  have n1: "1 < n" "0 < n" by (simp_all add: n_def)
  define q :: real where "q = 1 - 1 / real n"
  have q: "1 - 1 * (1 / 1000) = q" by (simp add: q_def rn)
  have pi: "py_int (1 / (1 / 1000)) = int n" by (simp add: py_int_def n_def)
  have Dt: "(1 / 1000 :: real) \<noteq> 0" by simp
  from exp_decay_closed_form[OF Dt pi, of 1 10]
  obtain ts ys where
    run: "snd (solve_ode_euler (exp_decay_dt 1) 10 (1 / 1000) 1) = Inr (ts, ys)"
    and lys: "length ys = Suc n"
    and cf: "\<forall>j\<le>n. ys ! j = 10 * (1 - 1 * (1 / 1000)) ^ j"
    by blast
  have "ys \<noteq> []" using lys by auto
  then have "last ys = ys ! n" using lys by (simp add: last_conv_nth)
  then have lst: "last ys = 10 * q ^ n" using cf unfolding q by simp
  have up: "q ^ n \<le> exp (- 1)" unfolding q_def using n1(2) by (rule euler_power_upper)
  have lo: "q * exp (- 1) \<le> q ^ n" unfolding q_def using n1(1) by (rule euler_power_lower)
  have qv: "q = 999 / 1000" by (simp add: q_def rn)
  have e: "exp_decay 1 10 1 = 10 * exp (- 1)" by (simp add: exp_decay_def)
  have pos: "0 < exp (- 1 :: real)" by simp
  have "\<bar>10 * q ^ n - 10 * exp (- 1)\<bar> \<le> (1 / 100) * \<bar>10 * exp (- 1 :: real)\<bar>"
    using up lo pos unfolding qv by linarith
  then have "\<bar>last ys - exp_decay 1 10 1\<bar> \<le> (1 / 100) * \<bar>exp_decay 1 10 1\<bar>"
    unfolding lst e .
  moreover have "length ys = 1001" using lys by (simp add: n_def)
  ultimately show ?thesis using run e by blast
qed

text \<open>
  C6. If a call of the derivative function made during a run raises \<open>e\<close> (a call in
  the log, at whose arguments the derivative raises \<open>e\<close>), then the run ends with that
  same \<open>e\<close> and no trajectory, and the raising call is the last one made.
\<close>

theorem derivative_error_propagates:
  assumes "solve_ode_euler dydt y0 Dt t_end = (calls, out)"
    and "(y, t) \<in> set calls" and "dydt y t = Inl e"
  shows "out = Inl e \<and> last calls = (y, t)"
proof -
  have Dt: "Dt \<noteq> 0" using assms(1,2) by (auto simp: solve_ode_euler_def)
  let ?n = "py_int (t_end / Dt)"
  obtain ts where ts: "linspace 0 t_end (?n + 1) = Inr ts"
    using assms(1,2) Dt by (cases "linspace 0 t_end (?n + 1)") (auto simp: solve_ode_euler_def)
  obtain zs where zs: "zeros (?n + 1) = Inr zs"
    using assms(1,2) Dt ts by (cases "zeros (?n + 1)") (auto simp: solve_ode_euler_def)
  have ne: "length zs \<noteq> 0"
    using assms(1,2) Dt ts zs by (auto simp: solve_ode_euler_def)
  obtain cs' r where
    loop: "euler_loop dydt Dt ts [0..<nat ?n] [] (zs[0 := y0]) = (cs', r)"
    by (cases "euler_loop dydt Dt ts [0..<nat ?n] [] (zs[0 := y0])") auto
  have calls: "calls = cs'"
    using assms(1) Dt ts zs ne loop by (auto simp: solve_ode_euler_def split: sum.splits)
  have inv: "\<forall>c\<in>set []. \<forall>e. dydt (fst c) (snd c) \<noteq> Inl e" by simp
  have "(y, t) \<in> set cs'" using assms(2) calls by simp
  from euler_loop_raise[OF inv loop this assms(3)]
  have r: "r = Inl e" and l: "last cs' = (y, t)" by simp_all
  have "out = Inl e"
    using assms(1) Dt ts zs ne loop r by (auto simp: solve_ode_euler_def)
  then show ?thesis using l calls by simp
qed

theorem derivative_error_propagates_witness:
  "solve_ode_euler (\<lambda>y t. if y < 5 then Inl (Other ''boom'') else exp_decay_dt 1 y t) 10 (1 / 2) 2
     = ([(10, 0), (5, 1 / 2), (5 / 2, 1)], Inl (Other ''boom''))
   \<and> (5 / 2, 1) \<in> set [(10, 0), (5, 1 / 2), (5 / 2, 1 :: real)]
   \<and> (\<lambda>y t. if y < 5 then Inl (Other ''boom'') else exp_decay_dt 1 y t) (5 / 2) 1
        = Inl (Other ''boom'')
   \<and> last [(10, 0), (5, 1 / 2), (5 / 2, 1 :: real)] = (5 / 2, 1)"
proof -
  let ?D = "\<lambda>y t. if y < 5 then Inl (Other ''boom'') else exp_decay_dt 1 y (t::real)"
  have run: "solve_ode_euler ?D 10 (1 / 2) 2
     = ([(10, 0), (5, 1 / 2), (5 / 2, 1)], Inl (Other ''boom''))"
    by code_simp
  have mem: "(5 / 2, 1) \<in> set [(10, 0), (5, 1 / 2), (5 / 2, 1 :: real)]" by simp
  have raise: "?D (5 / 2) 1 = Inl (Other ''boom'')" by simp
  from derivative_error_propagates[OF run mem raise] run mem raise
  show ?thesis by simp
qed

text \<open>
  C2, as the code has it. The solver validates nothing, and there is no invalid-argument
  error of its own; but it does fail, before any derivative evaluation and with no
  trajectory, whenever the step size is 0 (ZeroDivisionError, from the division), or
  \<open>t_end / Dt \<le> -1\<close>, where \<open>int(t_end / Dt)\<close> is negative (ValueError from
  \<open>np.linspace\<close>, or IndexError from \<open>y_values[0] = y0\<close> on the empty array), or the
  initial state is the empty sequence (ValueError from \<open>y_values[0] = y0\<close>, when nothing
  before it has raised). A quotient that overflows or is NaN raises in \<open>int\<close>. This
  holds for every float division that \<open>rounds_quotient\<close> admits.
\<close>

theorem invalid_arguments_fail_early:
  assumes "rounds_quotient fdiv"
    and "Dt = 0 \<or> t_end / Dt \<le> - 1 \<or> y0 = Sequence []"
  shows "\<exists>e. solve_ode_euler_float fdiv dydt y0 Dt t_end = ([], Inl e)
           \<and> e \<in> {ZeroDivisionError, ValueError, IndexError, OverflowError}
           \<and> (Dt = 0 \<longrightarrow> e = ZeroDivisionError)"
proof (cases "Dt = 0")
  case True
  then show ?thesis by (simp add: solve_ode_euler_float_def)
next
  case Dt: False
  show ?thesis
  proof (cases "fdiv t_end Dt")
    case PosInf
    then show ?thesis using Dt by (simp add: solve_ode_euler_float_def)
  next
    case NegInf
    then show ?thesis using Dt by (simp add: solve_ode_euler_float_def)
  next
    case NaN
    then show ?thesis using Dt by (simp add: solve_ode_euler_float_def)
  next
    case (Finite q)
    define n where "n = py_int q"
    have pi: "py_int_float (fdiv t_end Dt) = Inr n" using Finite by (simp add: n_def)
    consider (neg) "n + 1 < 0" | (zero) "n + 1 = 0" | (pos) "0 < n + 1" by linarith
    then show ?thesis
    proof cases
      case neg
      then show ?thesis using Dt pi
        by (simp add: solve_ode_euler_float_def linspace_def)
    next
      case zero
      then show ?thesis using Dt pi
        by (simp add: solve_ode_euler_float_def linspace_def zeros_def)
    next
      case pos
      have "\<not> t_end / Dt \<le> - 1"
      proof
        assume "t_end / Dt \<le> - 1"
        then have "q \<le> - 1" using assms(1) Finite Dt unfolding rounds_quotient_def by blast
        then have "\<lceil>q\<rceil> \<le> - 1" "py_int q = \<lceil>q\<rceil>"
          by (simp_all add: ceiling_le_iff py_int_def)
        then show False using pos unfolding n_def by linarith
      qed
      then have y0: "y0 = Sequence []" using assms(2) Dt by blast
      obtain ts where ts: "linspace 0 t_end (n + 1) = Inr ts"
        using linspace_length[of "n + 1" 0 t_end] pos by auto
      have zs: "zeros (n + 1) = Inr (replicate (nat (n + 1)) 0)"
        using pos by (simp add: zeros_def)
      have ne: "length (replicate (nat (n + 1)) (0::real)) \<noteq> 0" using pos by simp
      show ?thesis using Dt pi ts zs ne y0
        by (simp add: solve_ode_euler_float_def del: length_replicate replicate_Suc)
    qed
  qed
qed

theorem invalid_arguments_fail_early_witness:
  "rounds_quotient (\<lambda>x y. Finite (x / y))
   \<and> ((0::real) = 0 \<or> (10::real) / 0 \<le> - 1 \<or> Scalar 10 = Sequence [])
   \<and> solve_ode_euler_float (\<lambda>x y. Finite (x / y)) (exp_decay_dt 1) (Scalar 10) 0 10
        = ([], Inl ZeroDivisionError)
   \<and> ((- 1 :: real) = 0 \<or> (3::real) / (- 1) \<le> - 1 \<or> Scalar 10 = Sequence [])
   \<and> solve_ode_euler_float (\<lambda>x y. Finite (x / y)) (exp_decay_dt 1) (Scalar 10) (- 1) 3
        = ([], Inl ValueError)
   \<and> ((1 / 2 :: real) = 0 \<or> (2::real) / (1 / 2) \<le> - 1 \<or> Sequence [] = Sequence [])
   \<and> solve_ode_euler_float (\<lambda>x y. Finite (x / y)) (exp_decay_dt 1) (Sequence []) (1 / 2) 2
        = ([], Inl ValueError)
   \<and> (\<exists>e. solve_ode_euler_float (\<lambda>x y. Finite (x / y)) (exp_decay_dt 1) (Sequence [])
              (1 / 2) 2 = ([], Inl e)
          \<and> e \<in> {ZeroDivisionError, ValueError, IndexError, OverflowError})"
proof -
  have a: "solve_ode_euler_float (\<lambda>x y. Finite (x / y)) (exp_decay_dt 1) (Scalar 10) 0 10
        = ([], Inl ZeroDivisionError)"
    by (simp add: solve_ode_euler_float_def)
  have b: "solve_ode_euler_float (\<lambda>x y. Finite (x / y)) (exp_decay_dt 1) (Scalar 10) (- 1) 3
        = ([], Inl ValueError)"
    by (simp add: solve_ode_euler_float_def py_int_def linspace_def)
  have c: "solve_ode_euler_float (\<lambda>x y. Finite (x / y)) (exp_decay_dt 1) (Sequence []) (1 / 2) 2
        = ([], Inl ValueError)"
    by (simp add: solve_ode_euler_float_def py_int_def linspace_def zeros_def Let_def)
  from invalid_arguments_fail_early[OF rounds_quotient_exact,
      of "1 / 2" 2 "Sequence []" "exp_decay_dt 1"]
    rounds_quotient_exact a b c
  show ?thesis by simp
qed

text \<open>
  C2, as stated, fails at \<open>Dt = -1\<close>, \<open>t_end = -3\<close>: a step size below zero and a
  horizon below zero, and the solver evaluates the derivative three times and returns a
  trajectory of four samples.
\<close>

theorem negative_step_and_horizon_accepted:
  "solve_ode_euler (exp_decay_dt 1) 10 (- 1) (- 3)
     = ([(10, 0), (20, - 1), (40, - 2)], Inr ([0, - 1, - 2, - 3], [10, 20, 40, 80]))"
  by code_simp

text \<open>
  C1 at \<open>Dt = 0.3\<close>, \<open>t_end = 1\<close>: the times returned are \<open>0, 1/3, 2/3, 1\<close>. They are
  an arithmetic sequence from 0, of common difference \<open>1/3\<close> and not the step size
  \<open>0.3\<close>, while the states beside them are Euler steps of size \<open>0.3\<close>.
\<close>

theorem time_spacing_is_not_step_size:
  "snd (solve_ode_euler (exp_decay_dt 1) 10 (3 / 10) 1)
     = Inr ([0, 1 / 3, 2 / 3, 1], [10, 7, 49 / 10, 343 / 100])"
  by code_simp

text \<open>
  C4 at \<open>Dt = 1.5\<close>, \<open>t_end = 10\<close> (a position of the notebook's slider): the run
  starts at \<open>(0, 10)\<close>, every state is the one before plus the derivative there times
  \<open>1.5\<close>, and the derivative is evaluated at the current state and time; but the time
  beside each state advances by \<open>10/6 = 5/3\<close>, not by the step size.
\<close>

theorem euler_states_on_linspace_times:
  "solve_ode_euler (exp_decay_dt 1) 10 (3 / 2) 10
     = ([(10, 0), (- 5, 5 / 3), (5 / 2, 10 / 3), (- (5 / 4), 5), (5 / 8, 20 / 3),
         (- (5 / 16), 25 / 3)],
        Inr ([0, 5 / 3, 10 / 3, 5, 20 / 3, 25 / 3, 10],
             [10, - 5, 5 / 2, - (5 / 4), 5 / 8, - (5 / 16), 5 / 32]))"
  by code_simp

text \<open>
  C8 at the value \<open>-0.5\<close> of the \<open>Dt\<close> slider, below its declared minimum \<open>0.0\<close>:
  the value is clamped to \<open>0.0\<close>, and \<open>solve_and_plot\<close> then raises
  ZeroDivisionError: no trajectory is computed.
\<close>

theorem harness_fails_below_minimum:
  "clamp Dt_descriptor (- 1 / 2) = 0
   \<and> interact solve_and_plot Dt_descriptor (- 1 / 2) = Inl ZeroDivisionError"
  by (simp add: interact_def clamp_def Dt_descriptor_def solve_and_plot_def solve_ode_euler_def)

end
